theory Spec2Isabelle
  imports Main
begin

section \<open>Numbers of the source\<close>

text \<open>
  The component of \<^verbatim>\<open>src/NewPagination.tsx\<close> computes with JavaScript numbers. Every
  number that enters it (item count, page size, page) is taken to be an integer of the
  exactly representable range, where \<open>+\<close>, \<open>-\<close>, \<open>Math.floor (a / b)\<close> with \<open>b \<noteq> 0\<close>,
  \<open>Math.min\<close> and \<open>Math.max\<close> agree with the integers. The one place that leaves the
  integers is the division of \<open>calculatePage\<close>: a divisor \<open>0\<close> gives \<open>Infinity\<close>,
  \<open>-Infinity\<close> or \<open>NaN\<close>, and a divisor \<open>undefined\<close> gives \<open>NaN\<close>. These three values
  are kept, with the arithmetic and the comparisons JavaScript gives them.
\<close>

datatype jsnum = Num int | PosInf | NegInf | NaN

fun jneg :: "jsnum \<Rightarrow> jsnum" where
  "jneg (Num a) = Num (- a)"
| "jneg PosInf = NegInf"
| "jneg NegInf = PosInf"
| "jneg NaN = NaN"

fun jadd :: "jsnum \<Rightarrow> jsnum \<Rightarrow> jsnum" where
  "jadd (Num a) (Num b) = Num (a + b)"
| "jadd NaN _ = NaN"
| "jadd _ NaN = NaN"
| "jadd PosInf NegInf = NaN"
| "jadd NegInf PosInf = NaN"
| "jadd PosInf _ = PosInf"
| "jadd _ PosInf = PosInf"
| "jadd NegInf _ = NegInf"
| "jadd _ NegInf = NegInf"

definition jsub :: "jsnum \<Rightarrow> jsnum \<Rightarrow> jsnum" where
  "jsub x y = jadd x (jneg y)"

text \<open>\<open><\<close> of JavaScript: every comparison with \<open>NaN\<close> is false.\<close>

fun jlt :: "jsnum \<Rightarrow> jsnum \<Rightarrow> bool" where
  "jlt (Num a) (Num b) = (a < b)"
| "jlt NaN _ = False"
| "jlt _ NaN = False"
| "jlt _ NegInf = False"
| "jlt NegInf _ = True"
| "jlt PosInf _ = False"
| "jlt _ PosInf = True"

text \<open>\<open>===\<close> on numbers: \<open>NaN\<close> is not equal to itself.\<close>

definition jeq :: "jsnum \<Rightarrow> jsnum \<Rightarrow> bool" where
  "jeq x y = (x \<noteq> NaN \<and> x = y)"

definition jle :: "jsnum \<Rightarrow> jsnum \<Rightarrow> bool" where
  "jle x y = (jlt x y \<or> jeq x y)"

definition jgt :: "jsnum \<Rightarrow> jsnum \<Rightarrow> bool" where
  "jgt x y = jlt y x"

definition jge :: "jsnum \<Rightarrow> jsnum \<Rightarrow> bool" where
  "jge x y = jle y x"

text \<open>\<open>Math.min\<close> and \<open>Math.max\<close>: \<open>NaN\<close> as soon as one argument is \<open>NaN\<close>.\<close>

definition jmin :: "jsnum \<Rightarrow> jsnum \<Rightarrow> jsnum" where
  "jmin x y = (if x = NaN \<or> y = NaN then NaN else if jlt y x then y else x)"

definition jmax :: "jsnum \<Rightarrow> jsnum \<Rightarrow> jsnum" where
  "jmax x y = (if x = NaN \<or> y = NaN then NaN else if jlt x y then y else x)"

text \<open>Truthiness of a number (\<open>!allPages\<close>): \<open>0\<close> and \<open>NaN\<close> are falsy.\<close>

definition truthy :: "jsnum \<Rightarrow> bool" where
  "truthy x = (x \<noteq> Num 0 \<and> x \<noteq> NaN)"

text \<open>
  \<open>Math.floor (a / b)\<close> on integers. HOL's \<open>div\<close> on \<open>int\<close> rounds towards minus
  infinity, as \<open>Math.floor\<close> does, but \<open>a div 0 = 0\<close> in HOL, so the divisor \<open>0\<close> is
  written out.
\<close>

definition floorDiv :: "int \<Rightarrow> int \<Rightarrow> jsnum" where
  "floorDiv a b =
     (if b \<noteq> 0 then Num (a div b)
      else if 0 < a then PosInf
      else if a < 0 then NegInf
      else NaN)"

text \<open>
  \<^verbatim>\<open>function isInteger(v)\<close>: a number that is not \<open>NaN\<close>, finite, and its own floor.
\<close>

fun isInteger :: "jsnum \<Rightarrow> bool" where
  "isInteger (Num _) = True"
| "isInteger _ = False"

text \<open>
  \<^verbatim>\<open>function calculatePage(p, pageSize, total)\<close>. Both \<open>p\<close> and \<open>pageSize\<close> are passed
  \<open>undefined\<close> by some caller, so both are options; \<open>None\<close> is \<open>undefined\<close>.
  (\<open>total\<close> is a constant of HOL, so the parameter is written \<open>total'\<close>.)
\<close>

definition calculatePage :: "int option \<Rightarrow> int option \<Rightarrow> int \<Rightarrow> jsnum" where
  "calculatePage p pageSize total' =
     (let pageSize' = (case p of None \<Rightarrow> pageSize | Some v \<Rightarrow> Some v)
      in case pageSize' of
           None \<Rightarrow> NaN
         | Some s \<Rightarrow> jadd (floorDiv (total' - 1) s) (Num 1))"

section \<open>Props, hook state and the values derived at each render\<close>

text \<open>
  The props the component reads. A prop that may be left out is an option (\<open>None\<close> is
  \<open>undefined\<close>); the destructuring defaults of the source are the definitions below the
  record. \<open>onChange_prop\<close> says whether the caller supplied a handler (without one the
  source binds \<open>noop\<close>). \<open>itemRender_prop\<close>, when supplied, says whether the node it
  returns for a page and an item type is truthy, which is all the component asks of it;
  \<open>jumpPrevIcon\<close> and \<open>jumpNextIcon\<close> say whether an icon was supplied.
\<close>

datatype item_type = page_item | prev_item | next_item | jump_prev_item | jump_next_item

record props =
  prefixCls_prop :: "string option"
  current_prop :: "int option"
  defaultCurrent_prop :: "int option"
  total_prop :: "int option"
  pageSize_prop :: "int option"
  defaultPageSize_prop :: "int option"
  onChange_prop :: bool
  hideOnSinglePage :: bool
  showPrevNextJumpers_prop :: "bool option"
  showQuickJumper :: bool
  showLessItems :: bool
  totalBoundaryShowSizeChanger_prop :: "int option"
  disabled :: bool
  simple :: bool
  showSizeChanger_prop :: "bool option"
  itemRender_prop :: "(jsnum \<Rightarrow> item_type \<Rightarrow> bool) option"
  jumpPrevIcon :: bool
  jumpNextIcon :: bool

definition prefixCls :: "props \<Rightarrow> string" where
  "prefixCls P = (case prefixCls_prop P of None \<Rightarrow> ''rc-pagination'' | Some v \<Rightarrow> v)"

definition defaultCurrent :: "props \<Rightarrow> int" where
  "defaultCurrent P = (case defaultCurrent_prop P of None \<Rightarrow> 1 | Some v \<Rightarrow> v)"

definition total' :: "props \<Rightarrow> int" where
  "total' P = (case total_prop P of None \<Rightarrow> 0 | Some v \<Rightarrow> v)"

definition defaultPageSize :: "props \<Rightarrow> int" where
  "defaultPageSize P = (case defaultPageSize_prop P of None \<Rightarrow> 10 | Some v \<Rightarrow> v)"

definition showPrevNextJumpers :: "props \<Rightarrow> bool" where
  "showPrevNextJumpers P = (case showPrevNextJumpers_prop P of None \<Rightarrow> True | Some v \<Rightarrow> v)"

definition totalBoundaryShowSizeChanger :: "props \<Rightarrow> int" where
  "totalBoundaryShowSizeChanger P =
     (case totalBoundaryShowSizeChanger_prop P of None \<Rightarrow> 50 | Some v \<Rightarrow> v)"

text \<open>
  \<open>defaultItemRender\<close> returns the element it is given, and \<open>getItemIcon\<close> always
  builds one, so the default renderer's result is truthy.
\<close>

definition itemRender :: "props \<Rightarrow> jsnum \<Rightarrow> item_type \<Rightarrow> bool" where
  "itemRender P page' type' =
     (case itemRender_prop P of None \<Rightarrow> True | Some f \<Rightarrow> f page' type')"

text \<open>The props of \<^verbatim>\<open><Pagination />\<close> with nothing supplied.\<close>

definition noProps :: props where
  "noProps =
     \<lparr> prefixCls_prop = None, current_prop = None, defaultCurrent_prop = None,
       total_prop = None, pageSize_prop = None, defaultPageSize_prop = None,
       onChange_prop = False, hideOnSinglePage = False, showPrevNextJumpers_prop = None,
       showQuickJumper = False, showLessItems = False,
       totalBoundaryShowSizeChanger_prop = None, disabled = False, simple = False,
       showSizeChanger_prop = None, itemRender_prop = None,
       jumpPrevIcon = False, jumpNextIcon = False \<rparr>"

text \<open>
  The state the component keeps between renders: the inner values of the two
  \<open>useMergedState\<close> hooks and \<open>internalInputVal\<close>, which is a number or the empty
  string of the quick-jump input.
\<close>

text \<open>
  The inner current page is an integer: it starts as an integer prop, and the only
  caller of its setter, \<open>handleChange\<close>, hands it integers
  (\<open>handleChange_sets_integer\<close> below).
\<close>

datatype input_val = EmptyString | InputNum jsnum

record hooks =
  innerPageSize :: int
  innerCurrent :: int
  internalInputVal :: input_val

text \<open>
  \<open>useMergedState\<close> belongs to the library rc-util. What the component relies on: the
  value the hook returns is the prop when the prop is supplied and the inner value
  otherwise, passed through \<open>postState\<close>; the inner value starts as the prop, else the
  default; the setter stores a new inner value.
\<close>

definition pageSize :: "props \<Rightarrow> hooks \<Rightarrow> int" where
  "pageSize P S = (case pageSize_prop P of None \<Rightarrow> innerPageSize S | Some v \<Rightarrow> v)"

definition mergedCurrent :: "props \<Rightarrow> hooks \<Rightarrow> int" where
  "mergedCurrent P S = (case current_prop P of None \<Rightarrow> innerCurrent S | Some v \<Rightarrow> v)"

text \<open>
  \<^verbatim>\<open>postState: (c) => Math.min(c, calculatePage(pageSize, undefined, total))\<close>
\<close>

definition postState :: "props \<Rightarrow> hooks \<Rightarrow> jsnum \<Rightarrow> jsnum" where
  "postState P S c = jmin c (calculatePage (Some (pageSize P S)) None (total' P))"

definition current :: "props \<Rightarrow> hooks \<Rightarrow> jsnum" where
  "current P S = postState P S (Num (mergedCurrent P S))"

definition allPages :: "props \<Rightarrow> hooks \<Rightarrow> jsnum" where
  "allPages P S = calculatePage None (Some (pageSize P S)) (total' P)"

text \<open>The state after the first render: \<open>useState(current)\<close> for the input value.\<close>

definition mount :: "props \<Rightarrow> hooks" where
  "mount P =
     (let S0 = \<lparr> innerPageSize = (case pageSize_prop P of None \<Rightarrow> defaultPageSize P | Some v \<Rightarrow> v),
                 innerCurrent = (case current_prop P of None \<Rightarrow> defaultCurrent P | Some v \<Rightarrow> v),
                 internalInputVal = EmptyString \<rparr>
      in S0 \<lparr> internalInputVal := InputNum (current P S0) \<rparr>)"

subsection \<open>The development-time warning\<close>

text \<open>
  \<open>warning\<close> is rc-util's: \<open>warning(valid, message)\<close> logs the message through
  \<open>console.error\<close> when \<open>valid\<close> is false and does nothing otherwise; it never throws.
  The result here is the list of messages logged by one render. \<open>production\<close> is
  \<^verbatim>\<open>process.env.NODE_ENV === 'production'\<close>.
\<close>

definition warning :: "bool \<Rightarrow> string \<Rightarrow> string list" where
  "warning valid message = (if valid then [] else [message])"

definition hasOnChange :: "props \<Rightarrow> bool" where
  "hasOnChange P = onChange_prop P"

text \<open>
  \<^verbatim>\<open>'current' in props\<close>; a \<open>current\<close> prop passed as \<open>undefined\<close> is not
  told apart from a prop left out.
\<close>

definition hasCurrent :: "props \<Rightarrow> bool" where
  "hasCurrent P = (current_prop P \<noteq> None)"

definition readOnlyMessage :: string where
  "readOnlyMessage = ''Warning: You provided a `current` prop to a Pagination component without an `onChange` handler. This will render a read-only component.''"

definition warnings :: "bool \<Rightarrow> props \<Rightarrow> string list" where
  "warnings production P =
     (if \<not> production then warning (hasCurrent P \<and> hasOnChange P) readOnlyMessage else [])"

subsection \<open>Handlers\<close>

text \<open>
  A handler's effects are the calls it makes, in order: the setters of the hooks and the
  two notifications of the host.
\<close>

datatype effect =
    SetPageSize int
  | SetCurrent jsnum
  | SetInternalInputVal jsnum
  | OnChange jsnum int
  | OnShowSizeChange jsnum int

definition jumpPrevPage :: "props \<Rightarrow> hooks \<Rightarrow> jsnum" where
  "jumpPrevPage P S =
     jmax (Num 1) (jsub (current P S) (Num (if showLessItems P then 3 else 5)))"

definition jumpNextPage :: "props \<Rightarrow> hooks \<Rightarrow> jsnum" where
  "jumpNextPage P S =
     jmin (calculatePage None (Some (pageSize P S)) (total' P))
          (jadd (current P S) (Num (if showLessItems P then 3 else 5)))"

text \<open>
  \<^verbatim>\<open>isValid(page)\<close>; \<open>total\<close> is an integer here, so \<open>isInteger(total)\<close> is true.
\<close>

definition isValid :: "props \<Rightarrow> hooks \<Rightarrow> jsnum \<Rightarrow> bool" where
  "isValid P S page' =
     (isInteger page' \<and> \<not> jeq page' (current P S) \<and> isInteger (Num (total' P)) \<and> 0 < total' P)"

definition changePageSize :: "props \<Rightarrow> hooks \<Rightarrow> int \<Rightarrow> effect list" where
  "changePageSize P S size' =
     (let newCurrent = calculatePage (Some size') (Some (pageSize P S)) (total' P);
          nextCurrent =
            (if jgt (current P S) newCurrent \<and> \<not> jeq newCurrent (Num 0)
             then newCurrent else current P S)
      in [SetPageSize size', OnChange nextCurrent size',
          SetInternalInputVal nextCurrent, OnShowSizeChange nextCurrent size'])"

text \<open>\<^verbatim>\<open>newPage !== internalInputVal\<close>: a number is never the empty string.\<close>

fun differs :: "jsnum \<Rightarrow> input_val \<Rightarrow> bool" where
  "differs x EmptyString = True"
| "differs x (InputNum v) = (\<not> jeq x v)"

text \<open>\<open>handleChange\<close> returns the page it settled on, with its effects.\<close>

definition handleChange :: "props \<Rightarrow> hooks \<Rightarrow> jsnum \<Rightarrow> jsnum \<times> effect list" where
  "handleChange P S page' =
     (if isValid P S page' \<and> \<not> disabled P then
        let currentPage = calculatePage None (Some (pageSize P S)) (total' P);
            newPage = (if jgt page' currentPage then currentPage
                       else if jlt page' (Num 1) then Num 1
                       else page')
        in (newPage,
            (if differs newPage (internalInputVal S) then [SetInternalInputVal newPage] else [])
            @ [SetCurrent newPage])
      else (current P S, []))"

definition hasPrev :: "props \<Rightarrow> hooks \<Rightarrow> bool" where
  "hasPrev P S = jgt (current P S) (Num 1)"

definition hasNext :: "props \<Rightarrow> hooks \<Rightarrow> bool" where
  "hasNext P S = jlt (current P S) (calculatePage None (Some (pageSize P S)) (total' P))"

text \<open>\<^verbatim>\<open>showSizeChangerProp ?? total > totalBoundaryShowSizeChanger\<close>\<close>

definition showSizeChanger :: "props \<Rightarrow> bool" where
  "showSizeChanger P =
     (case showSizeChanger_prop P of
        None \<Rightarrow> total' P > totalBoundaryShowSizeChanger P
      | Some v \<Rightarrow> v)"

definition prevHandle :: "props \<Rightarrow> hooks \<Rightarrow> effect list" where
  "prevHandle P S =
     (if hasPrev P S then snd (handleChange P S (jsub (current P S) (Num 1))) else [])"

definition nextHandle :: "props \<Rightarrow> hooks \<Rightarrow> effect list" where
  "nextHandle P S =
     (if hasNext P S then snd (handleChange P S (jadd (current P S) (Num 1))) else [])"

definition jumpPrevHandle :: "props \<Rightarrow> hooks \<Rightarrow> effect list" where
  "jumpPrevHandle P S = snd (handleChange P S (jumpPrevPage P S))"

definition jumpNextHandle :: "props \<Rightarrow> hooks \<Rightarrow> effect list" where
  "jumpNextHandle P S = snd (handleChange P S (jumpNextPage P S))"

definition shouldDisplayQuickJumper :: "props \<Rightarrow> hooks \<Rightarrow> bool" where
  "shouldDisplayQuickJumper P S = (if total' P > pageSize P S then showQuickJumper P else False)"

section \<open>The render\<close>

text \<open>
  What \<open>pagerList\<close> holds: a \<^verbatim>\<open><Pager />\<close> element with its \<open>page\<close>, its \<open>active\<close>
  flag and the parts of its \<open>className\<close>; the two jump items with their class names; or
  \<open>null\<close>, which is what \<open>jumpPrev\<close> and \<open>jumpNext\<close> stay when the jumpers are off.
  The \<open>key\<close> of a pager is its page (\<open>noPager\<close> for the placeholder) and is left out.
\<close>

datatype element =
    Pager jsnum bool "string list"
  | JumpPrev "string list"
  | JumpNext "string list"
  | Null

datatype error = TypeError

text \<open>
  \<^verbatim>\<open>React.cloneElement(e, { className: classNames(c, e.props.className) })\<close>: reading
  \<open>props\<close> of \<open>null\<close> or \<open>undefined\<close> throws.
\<close>

fun addClassName :: "string \<Rightarrow> element \<Rightarrow> error + element" where
  "addClassName c (Pager p a cs) = Inr (Pager p a (c # cs))"
| "addClassName c (JumpPrev cs) = Inr (JumpPrev (c # cs))"
| "addClassName c (JumpNext cs) = Inr (JumpNext (c # cs))"
| "addClassName c Null = Inl TypeError"

text \<open>
  \<^verbatim>\<open>for (let i = ...; i <= right; i += 1) pagerList.push(<Pager page={i} active={current === i} />)\<close>.
  With a bound that is not finite the loop may never end, so not returning is \<open>None\<close>.
\<close>

partial_function (option) pushPagers ::
  "jsnum \<Rightarrow> jsnum \<Rightarrow> jsnum \<Rightarrow> element list \<Rightarrow> element list option" where
  "pushPagers cur i right pagerList =
     (if jle i right
      then pushPagers cur (jadd i (Num 1)) right (pagerList @ [Pager i (jeq cur i) []])
      else Some pagerList)"

declare pushPagers.simps [code]

text \<open>
  The two steps that mark a neighbour of a jump item and insert the item. \<open>pagerList[0]\<close>
  and \<open>pagerList.at(-1)\<close> are \<open>undefined\<close> on an empty list.
\<close>

definition unshiftJumpPrev :: "string \<Rightarrow> element \<Rightarrow> element list \<Rightarrow> error + element list" where
  "unshiftJumpPrev prefix jumpPrev pagerList =
     (case pagerList of
        [] \<Rightarrow> Inl TypeError
      | x # xs \<Rightarrow>
          (case addClassName (prefix @ ''-item-after-jump-prev'') x of
             Inl e \<Rightarrow> Inl e
           | Inr x' \<Rightarrow> Inr (jumpPrev # x' # xs)))"

definition pushJumpNext :: "string \<Rightarrow> element \<Rightarrow> element list \<Rightarrow> error + element list" where
  "pushJumpNext prefix jumpNext pagerList =
     (if pagerList = [] then Inl TypeError
      else case addClassName (prefix @ ''-item-before-jump-next'') (last pagerList) of
             Inl e \<Rightarrow> Inl e
           | Inr x' \<Rightarrow> Inr (butlast pagerList @ [x', jumpNext]))"

definition jumpPrevElement :: "props \<Rightarrow> hooks \<Rightarrow> element" where
  "jumpPrevElement P S =
     (if showPrevNextJumpers P \<and> itemRender P (jumpPrevPage P S) jump_prev_item
      then JumpPrev ((prefixCls P @ ''-jump-prev'')
                     # (if jumpPrevIcon P then [prefixCls P @ ''-jump-prev-custom-icon''] else []))
      else Null)"

definition jumpNextElement :: "props \<Rightarrow> hooks \<Rightarrow> element" where
  "jumpNextElement P S =
     (if showPrevNextJumpers P \<and> itemRender P (jumpNextPage P S) jump_next_item
      then JumpNext ((prefixCls P @ ''-jump-next'')
                     # (if jumpNextIcon P then [prefixCls P @ ''-jump-next-custom-icon''] else []))
      else Null)"

text \<open>
  The section \<^verbatim>\<open>// ====== Normal ======\<close> of the render, which fills \<open>pagerList\<close>.
  The result is \<open>None\<close> when a loop never ends, \<open>Some (Inl TypeError)\<close> when the render
  throws, and \<open>Some (Inr pagerList)\<close> otherwise.
\<close>

definition pagerList :: "props \<Rightarrow> hooks \<Rightarrow> (error + element list) option" where
  "pagerList P S =
     (let pageBufferSize = (if showLessItems P then 1 else 2 :: int) in
      if jle (allPages P S) (Num (3 + pageBufferSize * 2)) then
        map_option Inr
          (pushPagers (current P S) (Num 1) (allPages P S)
             (if \<not> truthy (allPages P S)
              then [Pager (Num 1) False [prefixCls P @ ''-item-disabled'']] else []))
      else
        let left0 = jmax (Num 1) (jsub (current P S) (Num pageBufferSize));
            right0 = jmin (jadd (current P S) (Num pageBufferSize)) (allPages P S);
            right = (if jle (jsub (current P S) (Num 1)) (Num pageBufferSize)
                     then Num (1 + pageBufferSize * 2) else right0);
            left = (if jle (jsub (allPages P S) (current P S)) (Num pageBufferSize)
                    then jsub (allPages P S) (Num (pageBufferSize * 2)) else left0)
        in case pushPagers (current P S) left right [] of
             None \<Rightarrow> None
           | Some window \<Rightarrow>
               Some
                 (case (if jge (jsub (current P S) (Num 1)) (Num (pageBufferSize * 2))
                           \<and> \<not> jeq (current P S) (Num (1 + 2))
                        then unshiftJumpPrev (prefixCls P) (jumpPrevElement P S) window
                        else Inr window) of
                    Inl e \<Rightarrow> Inl e
                  | Inr withPrev \<Rightarrow>
                      (case (if jge (jsub (allPages P S) (current P S)) (Num (pageBufferSize * 2))
                                \<and> \<not> jeq (current P S) (jsub (allPages P S) (Num 2))
                             then pushJumpNext (prefixCls P) (jumpNextElement P S) withPrev
                             else Inr withPrev) of
                         Inl e \<Rightarrow> Inl e
                       | Inr withNext \<Rightarrow>
                           Inr ((if \<not> jeq left (Num 1) then [Pager (Num 1) False []] else [])
                                @ withNext
                                @ (if \<not> jeq right (allPages P S)
                                   then [Pager (allPages P S) False []] else [])))))"

text \<open>
  What the component returns: \<open>null\<close> (\<open>None\<close>), or the list with \<open>prev\<close>, the pagers,
  \<open>next\<close> and what it hands to \<open>Options\<close>. \<open>prev_li\<close> and \<open>next_li\<close> hold the
  \<open>aria-disabled\<close> flag of the item, or \<open>None\<close> when \<open>itemRender\<close> gave nothing for
  it; \<open>pagers\<close> is \<open>None\<close> in \<open>simple\<close> mode, where the input replaces the list;
  \<open>changeSize\<close> and \<open>quickGo\<close> say whether \<open>Options\<close> gets the handler or \<open>null\<close>.
\<close>

record rendered =
  prev_li :: "bool option"
  pagers :: "element list option"
  next_li :: "bool option"
  changeSize :: bool
  quickGo :: bool

definition Pagination :: "props \<Rightarrow> hooks \<Rightarrow> (error + rendered option) option" where
  "Pagination P S =
     (if hideOnSinglePage P \<and> total' P \<le> pageSize P S then Some (Inr None)
      else
        let prevPage = (if jgt (jsub (current P S) (Num 1)) (Num 0)
                        then jsub (current P S) (Num 1) else Num 0);
            nextPage = (if jlt (jadd (current P S) (Num 1)) (allPages P S)
                        then jadd (current P S) (Num 1) else allPages P S)
        in case pagerList P S of
             None \<Rightarrow> None
           | Some (Inl e) \<Rightarrow> Some (Inl e)
           | Some (Inr l) \<Rightarrow>
               Some (Inr (Some
                 \<lparr> prev_li = (if itemRender P prevPage prev_item
                              then Some (\<not> hasPrev P S \<or> \<not> truthy (allPages P S)) else None),
                   pagers = (if simple P then None else Some l),
                   next_li = (if itemRender P nextPage next_item
                              then Some (if simple P then \<not> hasNext P S
                                         else \<not> hasNext P S \<or> \<not> truthy (allPages P S))
                              else None),
                   changeSize = showSizeChanger P,
                   quickGo = shouldDisplayQuickJumper P S \<rparr>)))"

section \<open>Reading the pager list\<close>

text \<open>
  The statements below read \<open>pagerList\<close> as the sequence of page markers it shows: a
  page number for a pager, a marker for each jump item, nothing for \<open>null\<close>.
  \<open>pages\<close> keeps the page numbers only.
\<close>

datatype marker = PageNumber jsnum | PrevJump | NextJump

fun markers :: "element list \<Rightarrow> marker list" where
  "markers [] = []"
| "markers (Pager p a cs # xs) = PageNumber p # markers xs"
| "markers (JumpPrev cs # xs) = PrevJump # markers xs"
| "markers (JumpNext cs # xs) = NextJump # markers xs"
| "markers (Null # xs) = markers xs"

fun pages :: "element list \<Rightarrow> jsnum list" where
  "pages [] = []"
| "pages (Pager p a cs # xs) = p # pages xs"
| "pages (_ # xs) = pages xs"

fun isJumpPrev :: "element \<Rightarrow> bool" where
  "isJumpPrev (JumpPrev cs) = True"
| "isJumpPrev _ = False"

fun isJumpNext :: "element \<Rightarrow> bool" where
  "isJumpNext (JumpNext cs) = True"
| "isJumpNext _ = False"

section \<open>Properties\<close>

subsection \<open>The number operations on integers\<close>

lemma jsub_Num [simp]: "jsub (Num a) (Num b) = Num (a - b)"
  by (simp add: jsub_def)

lemma jeq_Num [simp]: "jeq (Num a) (Num b) = (a = b)"
  by (simp add: jeq_def)

lemma jle_Num [simp]: "jle (Num a) (Num b) = (a \<le> b)"
  by (auto simp: jle_def)

lemma jgt_Num [simp]: "jgt (Num a) (Num b) = (b < a)"
  by (simp add: jgt_def)

lemma jge_Num [simp]: "jge (Num a) (Num b) = (b \<le> a)"
  by (simp add: jge_def)

lemma jmin_Num [simp]: "jmin (Num a) (Num b) = Num (min a b)"
  by (auto simp: jmin_def)

lemma jmax_Num [simp]: "jmax (Num a) (Num b) = Num (max a b)"
  by (auto simp: jmax_def)

lemma truthy_Num [simp]: "truthy (Num a) = (a \<noteq> 0)"
  by (simp add: truthy_def)

subsection \<open>The page count\<close>

lemma calculatePage_Some:
  "s \<noteq> 0 \<Longrightarrow> calculatePage (Some s) q t = Num ((t - 1) div s + 1)"
  by (simp add: calculatePage_def floorDiv_def)

lemma calculatePage_None:
  "s \<noteq> 0 \<Longrightarrow> calculatePage None (Some s) t = Num ((t - 1) div s + 1)"
  by (simp add: calculatePage_def floorDiv_def)

lemma pages_eq_zero:
  fixes s t :: int
  assumes "1 \<le> s"
  shows "(t - 1) div s + 1 = 0 \<longleftrightarrow> - s < t \<and> t \<le> 0"
proof -
  from assms have "s \<noteq> 0" by simp
  then have "(t - 1 + s) div s = (t - 1) div s + 1" by (rule div_add_self2)
  then have "(t - 1) div s + 1 = (t - 1 + s) div s" by simp
  moreover have "(t - 1 + s) div s = 0 \<longleftrightarrow> 0 \<le> t - 1 + s \<and> t - 1 + s < s"
    using assms by (auto simp: zdiv_eq_0_iff)
  ultimately show ?thesis by auto
qed

lemma pages_nonpos:
  fixes s t :: int
  assumes "1 \<le> s" and "t \<le> 0"
  shows "(t - 1) div s + 1 \<le> 0"
proof -
  have "(t - 1) div s < 0" using assms by (simp add: pos_imp_zdiv_neg_iff)
  then show ?thesis by simp
qed

text \<open>
  C8. For every \<open>total \<ge> 1\<close> and \<open>pageSize \<ge> 1\<close> the page count computed by
  \<open>calculatePage\<close> is \<open>floor ((total - 1) / pageSize) + 1\<close>; for \<open>total = 0\<close> it is
  \<open>0\<close>; and for all \<open>total \<ge> 0\<close>, \<open>pageSize \<ge> 1\<close> the count is \<open>0\<close> exactly when
  \<open>total = 0\<close>. This holds for both ways the source passes the page size (as \<open>p\<close>, or
  as \<open>pageSize\<close> with \<open>p\<close> undefined).
\<close>

theorem totalPages_formula:
  assumes "1 \<le> s"
  shows "(1 \<le> t \<longrightarrow> calculatePage None (Some s) t = Num ((t - 1) div s + 1)
                 \<and> calculatePage (Some s) q t = Num ((t - 1) div s + 1))
       \<and> calculatePage None (Some s) 0 = Num 0
       \<and> calculatePage (Some s) q 0 = Num 0
       \<and> (0 \<le> t \<longrightarrow> (calculatePage None (Some s) t = Num 0 \<longleftrightarrow> t = 0)
                 \<and> (calculatePage (Some s) q t = Num 0 \<longleftrightarrow> t = 0))"
proof -
  from assms have nz: "s \<noteq> 0" by simp
  have zero: "(0 - 1) div s + 1 = 0"
    using pages_eq_zero [of s 0] assms by simp
  show ?thesis
    using nz zero pages_eq_zero [of s t] assms
    by (auto simp: calculatePage_Some calculatePage_None)
qed

theorem totalPages_formula_witness:
  "(1::int) \<le> 10 \<and> calculatePage None (Some 10) 500 = Num 50
   \<and> calculatePage (Some 10) None 500 = Num 50
   \<and> calculatePage None (Some 10) 0 = Num 0
   \<and> calculatePage None (Some 10) 500 \<noteq> Num 0"
  using totalPages_formula [of 10 500 None] by simp

subsection \<open>Unfolding the props and the derived values\<close>

lemmas props_defs = prefixCls_def defaultCurrent_def total'_def defaultPageSize_def
  showPrevNextJumpers_def totalBoundaryShowSizeChanger_def itemRender_def noProps_def

lemmas derived_defs = pageSize_def mergedCurrent_def postState_def current_def allPages_def
  mount_def

lemma calculatePage_p: "calculatePage (Some s) q t = calculatePage None (Some s) t"
  by (simp add: calculatePage_def)

lemma current_eq: "current P S = jmin (Num (mergedCurrent P S)) (allPages P S)"
  by (simp add: current_def postState_def allPages_def calculatePage_p)

text \<open>\<open>handleChange\<close> hands only integers to \<open>setCurrent\<close>.\<close>

lemma handleChange_sets_integer:
  assumes "SetCurrent v \<in> set (snd (handleChange P S page'))"
  shows "isInteger v"
proof -
  from assms have valid: "isValid P S page'" and v: "v = fst (handleChange P S page')"
    by (auto simp: handleChange_def Let_def split: if_splits)
  from valid obtain k where k: "page' = Num k" and t: "0 < total' P"
    by (cases page') (auto simp: isValid_def)
  show ?thesis
  proof (cases "pageSize P S = 0")
    case False
    then show ?thesis
      using assms k by (auto simp: handleChange_def Let_def calculatePage_None split: if_splits)
  next
    case True
    then show ?thesis
      using assms k t
      by (auto simp: handleChange_def Let_def calculatePage_def floorDiv_def jgt_def
               split: if_splits)
  qed
qed

subsection \<open>The loop that pushes the pagers\<close>

lemma pushPagers_stop: "\<not> jle i r \<Longrightarrow> pushPagers cur i r acc = Some acc"
  by (subst pushPagers.simps) simp

text \<open>Between two integers the loop ends and pushes one pager per page, in order.\<close>

lemma pushPagers_Num:
  "pushPagers cur (Num l) (Num r) acc
     = Some (acc @ map (\<lambda>i. Pager (Num i) (jeq cur (Num i)) []) [l..r])"
proof (induction "nat (r + 1 - l)" arbitrary: l acc)
  case 0
  then have "r < l" by simp
  then show ?case by (simp add: pushPagers_stop)
next
  case (Suc n)
  then have le: "l \<le> r" and n: "n = nat (r + 1 - (l + 1))" by simp_all
  have "pushPagers cur (Num l) (Num r) acc
          = pushPagers cur (Num (l + 1)) (Num r) (acc @ [Pager (Num l) (jeq cur (Num l)) []])"
    using le by (subst pushPagers.simps) simp
  also have "\<dots> = Some ((acc @ [Pager (Num l) (jeq cur (Num l)) []])
                        @ map (\<lambda>i. Pager (Num i) (jeq cur (Num i)) []) [l + 1..r])"
    using Suc.hyps(1) [OF n] .
  also have "\<dots> = Some (acc @ map (\<lambda>i. Pager (Num i) (jeq cur (Num i)) []) [l..r])"
    using le by (simp add: upto_rec1 [of l r])
  finally show ?case .
qed

subsection \<open>The pager list in closed form\<close>

lemma allPages_cases:
  obtains (fin) n where "allPages P S = Num n" "current P S = Num (min (mergedCurrent P S) n)"
  | (pinf) "allPages P S = PosInf" "current P S = Num (mergedCurrent P S)"
  | (ninf) "allPages P S = NegInf" "current P S = NegInf"
  | (nan) "allPages P S = NaN" "current P S = NaN"
  by (cases "allPages P S") (auto simp: current_eq jmin_def)

lemma Num_if: "(if Q then Num a else Num b) = Num (if Q then a else b)"
  by simp

lemma upto_ends: "l < r \<Longrightarrow> [l..r] = l # [l + 1..r - 1] @ [r]"
proof -
  assume lr: "l < r"
  then have "[l..r] = l # [l + 1..r]" by (simp add: upto_rec1)
  also from lr have "[l + 1..r] = [l + 1..r - 1] @ [r]" by (simp add: upto_rec2)
  finally show ?thesis by simp
qed

lemma window_bounds:
  fixes b c n :: int
  assumes "3 + b * 2 < n" "0 < b"
  shows "(if c - 1 \<le> b then 1 + b * 2 else min (c + b) n)
         = (if n - c \<le> b then n - b * 2 else max 1 (c - b)) + b * 2"
  using assms by auto

lemma pagerList_small:
  assumes A: "allPages P S = Num n"
    and small: "n \<le> 3 + (if showLessItems P then 1 else 2) * 2"
  shows "pagerList P S
         = Some (Inr ((if n = 0 then [Pager (Num 1) False [prefixCls P @ ''-item-disabled'']] else [])
                      @ map (\<lambda>i. Pager (Num i) (jeq (current P S) (Num i)) []) [1..n]))"
  using small unfolding pagerList_def Let_def A
  by (simp add: pushPagers_Num)

lemma pagerList_large:
  fixes b c n :: int
  assumes A: "allPages P S = Num n" and C: "current P S = Num c"
    and b: "b = (if showLessItems P then 1 else 2)"
    and big: "3 + b * 2 < n"
  defines "l \<equiv> (if n - c \<le> b then n - b * 2 else max 1 (c - b))"
  shows "pagerList P S = Some (Inr (
     (if l \<noteq> 1 then [Pager (Num 1) False []] else [])
     @ (if b * 2 \<le> c - 1 \<and> c \<noteq> 3
        then [jumpPrevElement P S,
              Pager (Num l) (c = l) [prefixCls P @ ''-item-after-jump-prev'']]
        else [Pager (Num l) (c = l) []])
     @ map (\<lambda>i. Pager (Num i) (c = i) []) [l + 1..l + b * 2 - 1]
     @ (if b * 2 \<le> n - c \<and> c \<noteq> n - 2
        then [Pager (Num (l + b * 2)) (c = l + b * 2) [prefixCls P @ ''-item-before-jump-next''],
              jumpNextElement P S]
        else [Pager (Num (l + b * 2)) (c = l + b * 2) []])
     @ (if l + b * 2 \<noteq> n then [Pager (Num n) False []] else [])))"
proof -
  have bpos: "0 < b" using b by simp
  have r: "(if c - 1 \<le> b then 1 + b * 2 else min (c + b) n) = l + b * 2"
    unfolding l_def using big bpos by (rule window_bounds)
  have lr: "l < l + b * 2" using bpos by simp
  have win: "[l..l + b * 2] = l # [l + 1..l + b * 2 - 1] @ [l + b * 2]"
    using lr by (rule upto_ends)
  have nb: "\<not> jle (allPages P S) (Num (3 + (if showLessItems P then 1 else 2) * 2))"
    using big b A by simp
  show ?thesis
    unfolding pagerList_def Let_def
    apply (simp only: nb if_False)
    apply (simp only: A C b [symmetric] jsub_Num jmax_Num jmin_Num jadd.simps jle_Num jge_Num jeq_Num Num_if r l_def [symmetric] pushPagers_Num option.case append_Nil win)
    apply (simp add: unshiftJumpPrev_def pushJumpNext_def)
    done
qed


lemma pagerList_PosInf:
  assumes A: "allPages P S = PosInf" and C: "current P S = Num c"
  shows "\<exists>l. pagerList P S = Some (Inr l)"
proof -
  define b :: int where "b = (if showLessItems P then 1 else 2)"
  define l where "l = max 1 (c - b)"
  have bpos: "0 < b" using b_def by simp
  have r: "(if c - 1 \<le> b then 1 + b * 2 else c + b) = l + b * 2"
    unfolding l_def using bpos by auto
  have lr: "l < l + b * 2" using bpos by simp
  have win: "[l..l + b * 2] = l # [l + 1..l + b * 2 - 1] @ [l + b * 2]"
    using lr by (rule upto_ends)
  have inf: "jsub PosInf (Num c) = PosInf" "jsub PosInf (Num 2) = PosInf"
    "\<And>k. \<not> jle PosInf (Num k)" "\<And>k. jge PosInf (Num k)" "\<And>k. \<not> jeq (Num k) PosInf"
    "\<And>k. jmin (Num k) PosInf = Num k"
    by (simp_all add: jsub_def jle_def jge_def jeq_def jmin_def)
  show ?thesis
    unfolding pagerList_def Let_def
    apply (simp only: A C b_def [symmetric] inf if_False if_True jsub_Num jmax_Num jadd.simps
             jle_Num jge_Num jeq_Num Num_if r l_def [symmetric] pushPagers_Num option.case
             append_Nil win)
    apply (simp add: unshiftJumpPrev_def pushJumpNext_def)
    done
qed

lemma pagerList_NegInf:
  assumes A: "allPages P S = NegInf"
  shows "pagerList P S = Some (Inr [])"
  unfolding pagerList_def Let_def A
  by (simp add: jle_def jeq_def truthy_def pushPagers_stop)

lemma pagerList_NaN:
  assumes A: "allPages P S = NaN" and C: "current P S = NaN"
  shows "pagerList P S = Some (Inr [Pager (Num 1) False [], Pager NaN False []])"
  unfolding pagerList_def Let_def A C
  by (simp add: jle_def jge_def jeq_def jsub_def jmax_def jmin_def pushPagers_stop)

lemma pagerList_returns: "\<exists>l. pagerList P S = Some (Inr l)"
proof (cases P S rule: allPages_cases)
  case (fin n)
  show ?thesis
  proof (cases "n \<le> 3 + (if showLessItems P then 1 else 2) * 2")
    case True
    with fin(1) show ?thesis by (simp add: pagerList_small)
  next
    case False
    then have "3 + (if showLessItems P then 1 else 2) * 2 < n" by simp
    from pagerList_large [OF fin(1) fin(2) refl this] show ?thesis by blast
  qed
next
  case pinf
  then show ?thesis by (rule pagerList_PosInf)
next
  case ninf
  then show ?thesis by (simp add: pagerList_NegInf)
next
  case nan
  then show ?thesis by (simp add: pagerList_NaN)
qed

subsection \<open>The size changer\<close>

text \<open>
  C10 as stated offers the page-size selector whenever \<open>showSizeChanger\<close> is not
  supplied and \<open>total\<close> is above the threshold. The early return of
  \<open>hideOnSinglePage\<close> comes first: with \<open>hideOnSinglePage\<close>, \<open>total = 60\<close> and the
  page size \<open>100\<close>, \<open>total\<close> is above the default threshold \<open>50\<close>, and the component
  returns \<open>null\<close>, so \<open>Options\<close> is not rendered and no selector is offered.
\<close>

theorem sizeChanger_hidden_counterexample:
  "showSizeChanger_prop
     (noProps\<lparr>total_prop := Some 60, defaultPageSize_prop := Some 100, hideOnSinglePage := True\<rparr>)
     = None
   \<and> totalBoundaryShowSizeChanger
        (noProps\<lparr>total_prop := Some 60, defaultPageSize_prop := Some 100, hideOnSinglePage := True\<rparr>)
       < total'
        (noProps\<lparr>total_prop := Some 60, defaultPageSize_prop := Some 100, hideOnSinglePage := True\<rparr>)
   \<and> totalBoundaryShowSizeChanger
        (noProps\<lparr>total_prop := Some 60, defaultPageSize_prop := Some 100, hideOnSinglePage := True\<rparr>)
       = 50
   \<and> Pagination
        (noProps\<lparr>total_prop := Some 60, defaultPageSize_prop := Some 100, hideOnSinglePage := True\<rparr>)
        (mount
          (noProps\<lparr>total_prop := Some 60, defaultPageSize_prop := Some 100, hideOnSinglePage := True\<rparr>))
       = Some (Inr None)"
  by (simp add: props_defs derived_defs Pagination_def)

text \<open>
  C10, amended. When \<open>hideOnSinglePage\<close> is set and \<open>total \<le> pageSize\<close> the component
  returns \<open>null\<close> and offers nothing. In every other case it renders, and then: when
  \<open>showSizeChanger\<close> is not supplied, the size-change handler is handed to \<open>Options\<close>
  (the page-size selector is offered) exactly when \<open>total\<close> is strictly greater than
  \<open>totalBoundaryShowSizeChanger\<close>, whose default is \<open>50\<close>; a supplied boolean decides
  alone.
\<close>

theorem sizeChanger_offered:
  "(hideOnSinglePage P \<and> total' P \<le> pageSize P S \<longrightarrow> Pagination P S = Some (Inr None))
   \<and> (\<not> (hideOnSinglePage P \<and> total' P \<le> pageSize P S) \<longrightarrow>
        (\<exists>r. Pagination P S = Some (Inr (Some r))
           \<and> (showSizeChanger_prop P = None \<longrightarrow>
                (changeSize r \<longleftrightarrow>
                   (case totalBoundaryShowSizeChanger_prop P of None \<Rightarrow> 50 | Some v \<Rightarrow> v)
                     < total' P))
           \<and> (showSizeChanger_prop P = Some b \<longrightarrow> changeSize r = b)))"
proof -
  obtain l where "pagerList P S = Some (Inr l)" using pagerList_returns by blast
  then show ?thesis
    by (auto simp: Pagination_def Let_def showSizeChanger_def totalBoundaryShowSizeChanger_def
             split: option.splits)
qed

theorem sizeChanger_offered_witness:
  "Pagination (noProps\<lparr>total_prop := Some 51\<rparr>) (mount (noProps\<lparr>total_prop := Some 51\<rparr>))
     = Some (Inr (Some \<lparr> prev_li = Some True,
                          pagers = Some [Pager (Num 1) True [], Pager (Num 2) False [],
                                         Pager (Num 3) False [], Pager (Num 4) False [],
                                         Pager (Num 5) False [], Pager (Num 6) False []],
                          next_li = Some False, changeSize = True, quickGo = False \<rparr>))
   \<and> \<not> hideOnSinglePage (noProps\<lparr>total_prop := Some 51\<rparr>)
   \<and> showSizeChanger_prop (noProps\<lparr>total_prop := Some 51\<rparr>) = None
   \<and> (50::int) < total' (noProps\<lparr>total_prop := Some 51\<rparr>)
   \<and> Pagination (noProps\<lparr>total_prop := Some 7, showSizeChanger_prop := Some True\<rparr>)
                (mount (noProps\<lparr>total_prop := Some 7, showSizeChanger_prop := Some True\<rparr>))
     = Some (Inr (Some \<lparr> prev_li = Some True,
                          pagers = Some [Pager (Num 1) True []],
                          next_li = Some True, changeSize = True, quickGo = False \<rparr>))
   \<and> \<not> (50::int) < total' (noProps\<lparr>total_prop := Some 7, showSizeChanger_prop := Some True\<rparr>)
   \<and> hideOnSinglePage (noProps\<lparr>total_prop := Some 60, defaultPageSize_prop := Some 100,
                                  hideOnSinglePage := True\<rparr>)
   \<and> Pagination (noProps\<lparr>total_prop := Some 60, defaultPageSize_prop := Some 100,
                            hideOnSinglePage := True\<rparr>)
                (mount (noProps\<lparr>total_prop := Some 60, defaultPageSize_prop := Some 100,
                                   hideOnSinglePage := True\<rparr>))
     = Some (Inr None)"
proof -
  let ?P = "noProps\<lparr>total_prop := Some 51\<rparr>"
  let ?Q = "noProps\<lparr>total_prop := Some 7, showSizeChanger_prop := Some True\<rparr>"
  let ?H = "noProps\<lparr>total_prop := Some 60, defaultPageSize_prop := Some 100,
                    hideOnSinglePage := True\<rparr>"
  have h: "Pagination ?P (mount ?P)
     = Some (Inr (Some \<lparr> prev_li = Some True,
                          pagers = Some [Pager (Num 1) True [], Pager (Num 2) False [],
                                         Pager (Num 3) False [], Pager (Num 4) False [],
                                         Pager (Num 5) False [], Pager (Num 6) False []],
                          next_li = Some False, changeSize = True, quickGo = False \<rparr>))"
    by code_simp
  have g: "Pagination ?Q (mount ?Q)
     = Some (Inr (Some \<lparr> prev_li = Some True, pagers = Some [Pager (Num 1) True []],
                          next_li = Some True, changeSize = True, quickGo = False \<rparr>))"
    by code_simp
  have hid: "hideOnSinglePage ?H \<and> total' ?H \<le> pageSize ?H (mount ?H)"
    by (simp add: props_defs derived_defs)
  from sizeChanger_offered [of ?P "mount ?P" True] sizeChanger_offered [of ?Q "mount ?Q" True]
       sizeChanger_offered [of ?H "mount ?H" True] h g hid
  show ?thesis
    by (simp add: props_defs)
qed

subsection \<open>Changing the page size\<close>

text \<open>
  C5. \<open>changePageSize(size)\<close> computes the fallback page
  \<open>totalPages(total, size)\<close> and reports it as the next current page only when it is
  strictly smaller than the current page and not \<open>0\<close>, and the current page otherwise.
  It always calls the setter of the page size with \<open>size\<close> and always calls both
  \<open>onChange\<close> and \<open>onShowSizeChange\<close> with \<open>(nextCurrent, size)\<close>, whether or not
  the page changed. For \<open>total = 500\<close>, current page \<open>50\<close> and page size \<open>10\<close>, the
  size \<open>20\<close> gives \<open>25\<close> pages and the current page \<open>25\<close>.
\<close>

theorem changePageSize_effects:
  "changePageSize P S n =
     (let fallback = calculatePage None (Some n) (total' P);
          nextCurrent = (if jlt fallback (current P S) \<and> \<not> jeq fallback (Num 0)
                         then fallback else current P S)
      in [SetPageSize n, OnChange nextCurrent n,
          SetInternalInputVal nextCurrent, OnShowSizeChange nextCurrent n])"
  by (simp add: changePageSize_def calculatePage_p jgt_def Let_def)

theorem changePageSize_effects_witness:
  "calculatePage None (Some 20) 500 = Num 25
   \<and> current (noProps\<lparr>total_prop := Some 500, defaultCurrent_prop := Some 50\<rparr>)
              (mount (noProps\<lparr>total_prop := Some 500, defaultCurrent_prop := Some 50\<rparr>)) = Num 50
   \<and> changePageSize (noProps\<lparr>total_prop := Some 500, defaultCurrent_prop := Some 50\<rparr>)
        (mount (noProps\<lparr>total_prop := Some 500, defaultCurrent_prop := Some 50\<rparr>)) 20
      = [SetPageSize 20, OnChange (Num 25) 20, SetInternalInputVal (Num 25),
         OnShowSizeChange (Num 25) 20]"
  using changePageSize_effects [of "noProps\<lparr>total_prop := Some 500, defaultCurrent_prop := Some 50\<rparr>"
          "mount (noProps\<lparr>total_prop := Some 500, defaultCurrent_prop := Some 50\<rparr>)" 20]
  by (simp add: props_defs derived_defs calculatePage_None calculatePage_Some Let_def)

subsection \<open>The warning\<close>

lemma warnings_iff:
  "warnings production P = [readOnlyMessage]
     \<longleftrightarrow> \<not> production \<and> \<not> (hasCurrent P \<and> hasOnChange P)"
  by (auto simp: warnings_def warning_def)

text \<open>
  C4 says that the warning about a \<open>current\<close> prop without an \<open>onChange\<close> handler is
  logged only for that configuration. The source passes \<open>hasCurrent && hasOnChange\<close> as
  the condition that must hold, so outside production the message is logged as soon as
  one of the two is missing: here for a component with no \<open>current\<close> prop and with an
  \<open>onChange\<close> handler.
\<close>

theorem warning_uncontrolled:
  "\<not> hasCurrent (noProps\<lparr>onChange_prop := True\<rparr>)
   \<and> hasOnChange (noProps\<lparr>onChange_prop := True\<rparr>)
   \<and> warnings False (noProps\<lparr>onChange_prop := True\<rparr>) = [readOnlyMessage]"
  by (simp add: warnings_def warning_def hasCurrent_def hasOnChange_def noProps_def)

subsection \<open>The current page after \<open>postState\<close>\<close>

text \<open>
  With at least one page and a merged current page (the \<open>current\<close> prop, else the
  stored one) of at least \<open>1\<close>, the minimum taken by \<open>postState\<close> keeps the current
  page between \<open>1\<close> and the page count.
\<close>

lemma current_in_range:
  assumes "allPages P S = Num n" and "1 \<le> n" and "1 \<le> mergedCurrent P S"
  shows "current P S = Num (min (mergedCurrent P S) n)
       \<and> 1 \<le> min (mergedCurrent P S) n \<and> min (mergedCurrent P S) n \<le> n"
  using assms by (simp add: current_eq)

text \<open>
  The other paths of the source keep a page at \<open>1\<close> or above: \<open>handleChange\<close> raises a
  page below \<open>1\<close> to \<open>1\<close>, and \<open>jumpPrevPage\<close> is a \<open>Math.max(1, ...)\<close>.
\<close>

lemma handleChange_floor:
  "handleChange (noProps\<lparr>total_prop := Some 500, defaultCurrent_prop := Some 3\<rparr>)
                (mount (noProps\<lparr>total_prop := Some 500, defaultCurrent_prop := Some 3\<rparr>))
                (Num (- 4))
   = (Num 1, [SetInternalInputVal (Num 1), SetCurrent (Num 1)])"
  by code_simp

lemma jumpPrevPage_floor:
  assumes "current P S = Num c"
  shows "\<exists>p. jumpPrevPage P S = Num p \<and> 1 \<le> p"
  using assms by (simp add: jumpPrevPage_def)

text \<open>
  C3 says that after every change of \<open>total\<close> or of the page size the current page is
  the minimum of the previous one and the page count, with a floor of \<open>1\<close>, so that it
  is \<open>1\<close> when there are \<open>0\<close> pages. \<open>postState\<close> takes the minimum and leaves the
  floor out: with nothing supplied (\<open>total = 0\<close>, page size \<open>10\<close>, default current page
  \<open>1\<close>) there are \<open>0\<close> pages and the current page is \<open>0\<close>. \<open>changePageSize\<close>, which
  refuses a fallback page of \<open>0\<close>, then reports the page \<open>0\<close> to \<open>onChange\<close> and
  \<open>onShowSizeChange\<close>.
\<close>

theorem postState_no_floor:
  "allPages noProps (mount noProps) = Num 0
   \<and> mergedCurrent noProps (mount noProps) = 1
   \<and> current noProps (mount noProps) = Num 0
   \<and> current noProps (mount noProps) \<noteq> Num 1
   \<and> changePageSize noProps (mount noProps) 20
       = [SetPageSize 20, OnChange (Num 0) 20, SetInternalInputVal (Num 0),
          OnShowSizeChange (Num 0) 20]"
  by (simp add: props_defs derived_defs calculatePage_None calculatePage_Some
                changePageSize_def Let_def)

subsection \<open>Hiding on a single page\<close>

text \<open>
  C9. The render always returns, and it returns \<open>null\<close> exactly when
  \<open>hideOnSinglePage\<close> is set and \<open>total \<le> pageSize\<close>: nothing of the control is
  rendered then, and in every other case a list is.
\<close>

theorem hideOnSinglePage_null:
  "(Pagination P S = Some (Inr None) \<longleftrightarrow> hideOnSinglePage P \<and> total' P \<le> pageSize P S)
   \<and> (\<exists>r. Pagination P S = Some (Inr r))"
proof -
  obtain l where "pagerList P S = Some (Inr l)" using pagerList_returns by blast
  then show ?thesis by (simp add: Pagination_def Let_def)
qed

theorem hideOnSinglePage_null_witness:
  "Pagination (noProps\<lparr>total_prop := Some 10, hideOnSinglePage := True\<rparr>)
              (mount (noProps\<lparr>total_prop := Some 10, hideOnSinglePage := True\<rparr>)) = Some (Inr None)
   \<and> Pagination (noProps\<lparr>total_prop := Some 11, hideOnSinglePage := True\<rparr>)
              (mount (noProps\<lparr>total_prop := Some 11, hideOnSinglePage := True\<rparr>)) \<noteq> Some (Inr None)
   \<and> Pagination (noProps\<lparr>total_prop := Some 10\<rparr>)
              (mount (noProps\<lparr>total_prop := Some 10\<rparr>)) \<noteq> Some (Inr None)"
  using hideOnSinglePage_null [of "noProps\<lparr>total_prop := Some 10, hideOnSinglePage := True\<rparr>"
          "mount (noProps\<lparr>total_prop := Some 10, hideOnSinglePage := True\<rparr>)"]
        hideOnSinglePage_null [of "noProps\<lparr>total_prop := Some 11, hideOnSinglePage := True\<rparr>"
          "mount (noProps\<lparr>total_prop := Some 11, hideOnSinglePage := True\<rparr>)"]
        hideOnSinglePage_null [of "noProps\<lparr>total_prop := Some 10\<rparr>"
          "mount (noProps\<lparr>total_prop := Some 10\<rparr>)"]
  by (simp add: props_defs derived_defs)


subsection \<open>The page numbers of the list\<close>

lemma pages_append [simp]: "pages (xs @ ys) = pages xs @ pages ys"
  by (induction xs rule: pages.induct) simp_all

lemma pages_map_Pager [simp]: "pages (map (\<lambda>i. Pager (Num i) (f i) []) xs) = map Num xs"
  by (induction xs) simp_all

lemma pages_jump [simp]:
  "pages (jumpPrevElement P S # xs) = pages xs" "pages (jumpNextElement P S # xs) = pages xs"
  by (simp_all add: jumpPrevElement_def jumpNextElement_def)

lemma count_list_distinct: "distinct xs \<Longrightarrow> x \<in> set xs \<Longrightarrow> count_list xs x = 1"
  by (induction xs) auto

lemma inj_Num: "inj Num"
  by (simp add: inj_def)

text \<open>
  C7. For every valid state, \<open>1 \<le> current \<le> allPages\<close> (the buffer size is \<open>1\<close> or
  \<open>2\<close> by construction), the render produces a list whose page numbers are pairwise
  distinct; so page \<open>1\<close> and page \<open>allPages\<close> appear at most once, and the current
  page appears exactly once.
\<close>

theorem pages_no_duplicates:
  assumes A: "allPages P S = Num n" and C: "current P S = Num c"
    and lo: "1 \<le> c" and hi: "c \<le> n"
  shows "\<exists>l. pagerList P S = Some (Inr l)
           \<and> distinct (pages l)
           \<and> count_list (pages l) (Num 1) \<le> 1
           \<and> count_list (pages l) (Num n) \<le> 1
           \<and> count_list (pages l) (Num c) = 1"
proof -
  define b :: int where "b = (if showLessItems P then 1 else 2)"
  have bpos: "0 < b" using b_def by simp
  have "\<exists>l. pagerList P S = Some (Inr l) \<and> distinct (pages l) \<and> Num c \<in> set (pages l)"
  proof (cases "n \<le> 3 + b * 2")
    case True
    then have "pagerList P S
         = Some (Inr ((if n = 0 then [Pager (Num 1) False [prefixCls P @ ''-item-disabled'']] else [])
                      @ map (\<lambda>i. Pager (Num i) (jeq (current P S) (Num i)) []) [1..n]))"
      using pagerList_small [OF A] b_def by simp
    moreover have "n \<noteq> 0" using lo hi by simp
    ultimately have "pagerList P S
         = Some (Inr (map (\<lambda>i. Pager (Num i) (jeq (current P S) (Num i)) []) [1..n]))"
      by simp
    moreover have "distinct (map Num [1..n])" by (simp add: distinct_map inj_Num inj_on_def)
    moreover have "Num c \<in> set (map Num [1..n])" using lo hi by simp
    ultimately show ?thesis by simp
  next
    case False
    then have big: "3 + b * 2 < n" by simp
    define l where "l = (if n - c \<le> b then n - b * 2 else max 1 (c - b))"
    have l1: "1 \<le> l" and l2: "l + b * 2 \<le> n" and cl: "l \<le> c" "c \<le> l + b * 2"
      using big bpos lo hi by (auto simp: l_def)
    have join: "l # [l + 1..l + b * 2 - 1] @ [l + b * 2] = [l..l + b * 2]"
      using bpos upto_ends [of l "l + b * 2"] by simp
    let ?xs = "(if l \<noteq> 1 then [1] else []) @ [l..l + b * 2] @ (if l + b * 2 \<noteq> n then [n] else [])"
    note closed = pagerList_large [OF A C b_def big, unfolded l_def [symmetric]]
    then obtain xs where xs: "pagerList P S = Some (Inr xs)" and
      xs_def: "xs = (if l \<noteq> 1 then [Pager (Num 1) False []] else [])
     @ (if b * 2 \<le> c - 1 \<and> c \<noteq> 3
        then [jumpPrevElement P S,
              Pager (Num l) (c = l) [prefixCls P @ ''-item-after-jump-prev'']]
        else [Pager (Num l) (c = l) []])
     @ map (\<lambda>i. Pager (Num i) (c = i) []) [l + 1..l + b * 2 - 1]
     @ (if b * 2 \<le> n - c \<and> c \<noteq> n - 2
        then [Pager (Num (l + b * 2)) (c = l + b * 2) [prefixCls P @ ''-item-before-jump-next''],
              jumpNextElement P S]
        else [Pager (Num (l + b * 2)) (c = l + b * 2) []])
     @ (if l + b * 2 \<noteq> n then [Pager (Num n) False []] else [])"
      by blast
    have p: "pages xs = map Num ?xs"
      unfolding xs_def join [symmetric] by simp
    have "distinct ?xs" using l1 l2 bpos by auto
    then have "distinct (map Num ?xs)" by (simp add: distinct_map inj_Num inj_on_def del: map_append)
    moreover have "c \<in> set ?xs" using cl by simp
    then have "Num c \<in> set (map Num ?xs)" by (simp del: map_append)
    ultimately show ?thesis using xs p by simp
  qed
  then obtain xs where xs: "pagerList P S = Some (Inr xs)" and d: "distinct (pages xs)"
    and m: "Num c \<in> set (pages xs)" by blast
  have "count_list (pages xs) x \<le> 1" for x
    using d count_list_distinct [of "pages xs" x] count_notin [of x "pages xs"] by (cases "x \<in> set (pages xs)") simp_all
  with xs d m show ?thesis by (simp add: count_list_distinct)
qed


theorem pages_no_duplicates_witness:
  "allPages (noProps\<lparr>total_prop := Some 500, defaultCurrent_prop := Some 25\<rparr>)
            (mount (noProps\<lparr>total_prop := Some 500, defaultCurrent_prop := Some 25\<rparr>)) = Num 50
   \<and> current (noProps\<lparr>total_prop := Some 500, defaultCurrent_prop := Some 25\<rparr>)
            (mount (noProps\<lparr>total_prop := Some 500, defaultCurrent_prop := Some 25\<rparr>)) = Num 25
   \<and> (\<exists>l. pagerList (noProps\<lparr>total_prop := Some 500, defaultCurrent_prop := Some 25\<rparr>)
              (mount (noProps\<lparr>total_prop := Some 500, defaultCurrent_prop := Some 25\<rparr>)) = Some (Inr l)
          \<and> distinct (pages l) \<and> count_list (pages l) (Num 1) \<le> 1
          \<and> count_list (pages l) (Num 50) \<le> 1 \<and> count_list (pages l) (Num 25) = 1)"
proof -
  let ?P = "noProps\<lparr>total_prop := Some 500, defaultCurrent_prop := Some 25\<rparr>"
  have A: "allPages ?P (mount ?P) = Num 50" and C: "current ?P (mount ?P) = Num 25"
    by (simp_all add: props_defs derived_defs calculatePage_None calculatePage_Some)
  from pages_no_duplicates [OF A C] A C show ?thesis by simp
qed

subsection \<open>The markers of the list\<close>

lemma markers_append [simp]: "markers (xs @ ys) = markers xs @ markers ys"
  by (induction xs rule: markers.induct) simp_all

lemma markers_map_Pager [simp]:
  "markers (map (\<lambda>i. Pager (Num i) (f i) []) xs) = map (\<lambda>i. PageNumber (Num i)) xs"
  by (induction xs) simp_all

lemma current_le_allPages:
  assumes "allPages P S = Num n" and "current P S = Num c"
  shows "c \<le> n"
  using assms by (simp add: current_eq)

lemma list_ex_jump [simp]:
  "list_ex isJumpPrev (map (\<lambda>i. Pager (Num i) (f i) []) xs) = False"
  "list_ex isJumpNext (map (\<lambda>i. Pager (Num i) (f i) []) xs) = False"
  by (induction xs) simp_all

text \<open>
  C1 as stated gives the markers \<open>1, 2, 3, JumpNext, 50\<close> for \<open>total = 500\<close>, page
  size \<open>10\<close>, current page \<open>1\<close> and the buffer size \<open>2\<close>. There are \<open>50\<close> pages, but
  the window near the start is pinned to \<open>1 + 2 * 2 = 5\<close> pages, so the list shows the
  pages \<open>1\<close> to \<open>5\<close>.
\<close>

theorem scenario_A_counterexample:
  "allPages (noProps\<lparr>total_prop := Some 500\<rparr>) (mount (noProps\<lparr>total_prop := Some 500\<rparr>)) = Num 50
   \<and> pageSize (noProps\<lparr>total_prop := Some 500\<rparr>) (mount (noProps\<lparr>total_prop := Some 500\<rparr>)) = 10
   \<and> current (noProps\<lparr>total_prop := Some 500\<rparr>) (mount (noProps\<lparr>total_prop := Some 500\<rparr>)) = Num 1
   \<and> \<not> showLessItems (noProps\<lparr>total_prop := Some 500\<rparr>)
   \<and> pagerList (noProps\<lparr>total_prop := Some 500\<rparr>) (mount (noProps\<lparr>total_prop := Some 500\<rparr>))
       = Some (Inr [Pager (Num 1) True [], Pager (Num 2) False [], Pager (Num 3) False [],
                    Pager (Num 4) False [],
                    Pager (Num 5) False [''rc-pagination-item-before-jump-next''],
                    JumpNext [''rc-pagination-jump-next''], Pager (Num 50) False []])
   \<and> markers [Pager (Num 1) True [], Pager (Num 2) False [], Pager (Num 3) False [],
               Pager (Num 4) False [],
               Pager (Num 5) False [''rc-pagination-item-before-jump-next''],
               JumpNext [''rc-pagination-jump-next''], Pager (Num 50) False []]
       \<noteq> [PageNumber (Num 1), PageNumber (Num 2), PageNumber (Num 3), NextJump,
           PageNumber (Num 50)]"
  by code_simp

text \<open>
  C1, amended. For \<open>total = 500\<close>, page size \<open>10\<close>, current page \<open>1\<close> and
  \<open>showLessItems\<close> off (buffer size \<open>2\<close>), with the jumpers on and a renderer that
  gives a node for the jump item, there are \<open>50\<close> pages and the markers are exactly
  \<open>1, 2, 3, 4, 5, JumpNext, 50\<close>, in this order.
\<close>

theorem scenario_A:
  assumes T: "total' P = 500" and PS: "pageSize P S = 10" and C: "current P S = Num 1"
    and L: "\<not> showLessItems P" and J: "showPrevNextJumpers P"
    and R: "itemRender P (jumpNextPage P S) jump_next_item"
  shows "allPages P S = Num 50
       \<and> (\<exists>l. pagerList P S = Some (Inr l)
              \<and> markers l = [PageNumber (Num 1), PageNumber (Num 2), PageNumber (Num 3),
                             PageNumber (Num 4), PageNumber (Num 5), NextJump,
                             PageNumber (Num 50)])"
proof -
  have A: "allPages P S = Num 50"
    using T PS by (simp add: allPages_def calculatePage_None)
  have b: "(2::int) = (if showLessItems P then 1 else 2)" using L by simp
  have JN: "markers [jumpNextElement P S] = [NextJump]"
    using J R by (simp add: jumpNextElement_def)
  have u: "[(2::int)..4] = [2, 3, 4]" by (simp add: upto_rec1)
  from pagerList_large [OF A C b] JN u A show ?thesis
    by (simp add: jumpNextElement_def J R)
qed

theorem scenario_A_witness:
  "total' (noProps\<lparr>total_prop := Some 500\<rparr>) = 500
   \<and> pageSize (noProps\<lparr>total_prop := Some 500\<rparr>) (mount (noProps\<lparr>total_prop := Some 500\<rparr>)) = 10
   \<and> current (noProps\<lparr>total_prop := Some 500\<rparr>) (mount (noProps\<lparr>total_prop := Some 500\<rparr>)) = Num 1
   \<and> allPages (noProps\<lparr>total_prop := Some 500\<rparr>) (mount (noProps\<lparr>total_prop := Some 500\<rparr>)) = Num 50
   \<and> (\<exists>l. pagerList (noProps\<lparr>total_prop := Some 500\<rparr>) (mount (noProps\<lparr>total_prop := Some 500\<rparr>))
            = Some (Inr l)
          \<and> markers l = [PageNumber (Num 1), PageNumber (Num 2), PageNumber (Num 3),
                         PageNumber (Num 4), PageNumber (Num 5), NextJump,
                         PageNumber (Num 50)])"
proof -
  let ?P = "noProps\<lparr>total_prop := Some 500\<rparr>"
  have T: "total' ?P = 500" and PS: "pageSize ?P (mount ?P) = 10"
    and C: "current ?P (mount ?P) = Num 1" and L: "\<not> showLessItems ?P"
    and J: "showPrevNextJumpers ?P"
    and R: "itemRender ?P (jumpNextPage ?P (mount ?P)) jump_next_item"
    by (simp_all add: props_defs derived_defs calculatePage_None calculatePage_Some)
  from scenario_A [OF T PS C L J R] T PS C show ?thesis by simp
qed


subsection \<open>The jump items\<close>

text \<open>
  C6. In the branch for many pages (\<open>allPages > 3 + 2 * pageBufferSize\<close>), with the
  jumpers on and a renderer that gives a node for the jump items (the default one does),
  the list holds the jump-prev item exactly when
  \<open>current - 1 \<ge> 2 * pageBufferSize\<close> and \<open>current \<noteq> 3\<close>, and the jump-next item
  exactly when \<open>allPages - current \<ge> 2 * pageBufferSize\<close> and
  \<open>current \<noteq> allPages - 2\<close>. Activating jump-prev calls \<open>handleChange\<close> with
  \<open>max(1, current - d)\<close> and jump-next with \<open>min(allPages, current + d)\<close>, where \<open>d\<close> is
  \<open>3\<close> with \<open>showLessItems\<close> and \<open>5\<close> without; and when the item is shown, the control
  is not disabled and \<open>total > 0\<close>, that page is the one handed to \<open>setCurrent\<close>.
\<close>

theorem jump_markers:
  fixes b d c n :: int
  assumes A: "allPages P S = Num n" and C: "current P S = Num c"
    and b: "b = (if showLessItems P then 1 else 2)"
    and d: "d = (if showLessItems P then 3 else 5)"
    and big: "3 + b * 2 < n"
    and J: "showPrevNextJumpers P"
    and RP: "itemRender P (jumpPrevPage P S) jump_prev_item"
    and RN: "itemRender P (jumpNextPage P S) jump_next_item"
  shows "\<exists>l. pagerList P S = Some (Inr l)
           \<and> (list_ex isJumpPrev l \<longleftrightarrow> b * 2 \<le> c - 1 \<and> c \<noteq> 3)
           \<and> (list_ex isJumpNext l \<longleftrightarrow> b * 2 \<le> n - c \<and> c \<noteq> n - 2)
           \<and> jumpPrevHandle P S = snd (handleChange P S (Num (max 1 (c - d))))
           \<and> jumpNextHandle P S = snd (handleChange P S (Num (min n (c + d))))
           \<and> (list_ex isJumpPrev l \<and> \<not> disabled P \<and> 0 < total' P \<longrightarrow>
                jumpPrevHandle P S
                  = (if differs (Num (max 1 (c - d))) (internalInputVal S)
                     then [SetInternalInputVal (Num (max 1 (c - d)))] else [])
                    @ [SetCurrent (Num (max 1 (c - d)))])
           \<and> (list_ex isJumpNext l \<and> \<not> disabled P \<and> 0 < total' P \<and> 1 \<le> c \<longrightarrow>
                jumpNextHandle P S
                  = (if differs (Num (min n (c + d))) (internalInputVal S)
                     then [SetInternalInputVal (Num (min n (c + d)))] else [])
                    @ [SetCurrent (Num (min n (c + d)))])"
proof -
  define l where "l = (if n - c \<le> b then n - b * 2 else max 1 (c - b))"
  define xs where "xs = (if l \<noteq> 1 then [Pager (Num 1) False []] else [])
     @ (if b * 2 \<le> c - 1 \<and> c \<noteq> 3
        then [jumpPrevElement P S,
              Pager (Num l) (c = l) [prefixCls P @ ''-item-after-jump-prev'']]
        else [Pager (Num l) (c = l) []])
     @ map (\<lambda>i. Pager (Num i) (c = i) []) [l + 1..l + b * 2 - 1]
     @ (if b * 2 \<le> n - c \<and> c \<noteq> n - 2
        then [Pager (Num (l + b * 2)) (c = l + b * 2) [prefixCls P @ ''-item-before-jump-next''],
              jumpNextElement P S]
        else [Pager (Num (l + b * 2)) (c = l + b * 2) []])
     @ (if l + b * 2 \<noteq> n then [Pager (Num n) False []] else [])"
  have xs: "pagerList P S = Some (Inr xs)"
    unfolding xs_def l_def by (rule pagerList_large [OF A C b big])
  have jp: "jumpPrevElement P S = JumpPrev ((prefixCls P @ ''-jump-prev'')
              # (if jumpPrevIcon P then [prefixCls P @ ''-jump-prev-custom-icon''] else []))"
    using J RP by (simp add: jumpPrevElement_def)
  have jn: "jumpNextElement P S = JumpNext ((prefixCls P @ ''-jump-next'')
              # (if jumpNextIcon P then [prefixCls P @ ''-jump-next-custom-icon''] else []))"
    using J RN by (simp add: jumpNextElement_def)
  have prev_iff: "list_ex isJumpPrev xs \<longleftrightarrow> b * 2 \<le> c - 1 \<and> c \<noteq> 3"
    unfolding xs_def jp jn by simp
  have next_iff: "list_ex isJumpNext xs \<longleftrightarrow> b * 2 \<le> n - c \<and> c \<noteq> n - 2"
    unfolding xs_def jp jn by simp
  have pp: "jumpPrevPage P S = Num (max 1 (c - d))"
    using C d by (simp add: jumpPrevPage_def)
  have np: "jumpNextPage P S = Num (min n (c + d))"
    using A C d by (simp add: jumpNextPage_def allPages_def)
  have cn: "c \<le> n" using A C by (rule current_le_allPages)
  have bpos: "0 < b" and dpos: "0 < d" using b d by simp_all
  have cp: "calculatePage None (Some (pageSize P S)) (total' P) = Num n"
    using A by (simp add: allPages_def)
  have prev_eff: "jumpPrevHandle P S
                  = (if differs (Num (max 1 (c - d))) (internalInputVal S)
                     then [SetInternalInputVal (Num (max 1 (c - d)))] else [])
                    @ [SetCurrent (Num (max 1 (c - d)))]"
    if "b * 2 \<le> c - 1" "\<not> disabled P" "0 < total' P"
    using that cn bpos dpos
    by (auto simp: jumpPrevHandle_def pp handleChange_def isValid_def C cp Let_def)
  have next_eff: "jumpNextHandle P S
                  = (if differs (Num (min n (c + d))) (internalInputVal S)
                     then [SetInternalInputVal (Num (min n (c + d)))] else [])
                    @ [SetCurrent (Num (min n (c + d)))]"
    if "b * 2 \<le> n - c" "\<not> disabled P" "0 < total' P" "1 \<le> c"
    using that cn bpos dpos
    by (auto simp: jumpNextHandle_def np handleChange_def isValid_def C cp Let_def)
  show ?thesis
    using xs prev_iff next_iff prev_eff next_eff
    by (simp add: jumpPrevHandle_def jumpNextHandle_def pp np)
qed


theorem jump_markers_witness:
  "allPages (noProps\<lparr>total_prop := Some 500, defaultCurrent_prop := Some 25\<rparr>)
            (mount (noProps\<lparr>total_prop := Some 500, defaultCurrent_prop := Some 25\<rparr>)) = Num 50
   \<and> current (noProps\<lparr>total_prop := Some 500, defaultCurrent_prop := Some 25\<rparr>)
            (mount (noProps\<lparr>total_prop := Some 500, defaultCurrent_prop := Some 25\<rparr>)) = Num 25
   \<and> (\<exists>l. pagerList (noProps\<lparr>total_prop := Some 500, defaultCurrent_prop := Some 25\<rparr>)
              (mount (noProps\<lparr>total_prop := Some 500, defaultCurrent_prop := Some 25\<rparr>)) = Some (Inr l)
          \<and> list_ex isJumpPrev l \<and> list_ex isJumpNext l)
   \<and> jumpPrevHandle (noProps\<lparr>total_prop := Some 500, defaultCurrent_prop := Some 25\<rparr>)
            (mount (noProps\<lparr>total_prop := Some 500, defaultCurrent_prop := Some 25\<rparr>))
       = [SetInternalInputVal (Num 20), SetCurrent (Num 20)]
   \<and> jumpNextHandle (noProps\<lparr>total_prop := Some 500, defaultCurrent_prop := Some 25\<rparr>)
            (mount (noProps\<lparr>total_prop := Some 500, defaultCurrent_prop := Some 25\<rparr>))
       = [SetInternalInputVal (Num 30), SetCurrent (Num 30)]"
proof -
  let ?P = "noProps\<lparr>total_prop := Some 500, defaultCurrent_prop := Some 25\<rparr>"
  have A: "allPages ?P (mount ?P) = Num 50" and C: "current ?P (mount ?P) = Num 25"
    and b: "(2::int) = (if showLessItems ?P then 1 else 2)"
    and d: "(5::int) = (if showLessItems ?P then 3 else 5)"
    and big: "3 + (2::int) * 2 < 50"
    and J: "showPrevNextJumpers ?P"
    and RP: "itemRender ?P (jumpPrevPage ?P (mount ?P)) jump_prev_item"
    and RN: "itemRender ?P (jumpNextPage ?P (mount ?P)) jump_next_item"
    and E: "\<not> disabled ?P" "0 < total' ?P" "internalInputVal (mount ?P) = InputNum (Num 25)"
    by (simp_all add: props_defs derived_defs calculatePage_None calculatePage_Some)
  from jump_markers [OF A C b d big J RP RN] A C E show ?thesis
    by auto
qed

subsection \<open>A negative item count\<close>

lemma handleChange_total_nonpositive:
  "total' P \<le> 0 \<Longrightarrow> handleChange P S page' = (current P S, [])"
  by (simp add: handleChange_def isValid_def)

lemma zero_pageSize_next_enabled:
  "allPages (noProps\<lparr>total_prop := Some 500, defaultPageSize_prop := Some 0\<rparr>)
            (mount (noProps\<lparr>total_prop := Some 500, defaultPageSize_prop := Some 0\<rparr>)) = PosInf
   \<and> hasNext (noProps\<lparr>total_prop := Some 500, defaultPageSize_prop := Some 0\<rparr>)
            (mount (noProps\<lparr>total_prop := Some 500, defaultPageSize_prop := Some 0\<rparr>))
   \<and> nextHandle (noProps\<lparr>total_prop := Some 500, defaultPageSize_prop := Some 0\<rparr>)
            (mount (noProps\<lparr>total_prop := Some 500, defaultPageSize_prop := Some 0\<rparr>))
       = [SetInternalInputVal (Num 2), SetCurrent (Num 2)]"
  by code_simp

text \<open>
  C2 as stated gives \<open>0\<close> pages for every configuration with \<open>total < 0\<close> or
  \<open>pageSize \<le> 0\<close>. \<open>calculatePage\<close> has no guard for such a configuration: for
  \<open>total = -15\<close> and the page size \<open>10\<close> it returns \<open>-1\<close>.
\<close>

theorem negative_total_counterexample:
  "total' (noProps\<lparr>total_prop := Some (- 15)\<rparr>) < 0
   \<and> pageSize (noProps\<lparr>total_prop := Some (- 15)\<rparr>)
               (mount (noProps\<lparr>total_prop := Some (- 15)\<rparr>)) = 10
   \<and> allPages (noProps\<lparr>total_prop := Some (- 15)\<rparr>)
               (mount (noProps\<lparr>total_prop := Some (- 15)\<rparr>)) = Num (- 1)
   \<and> allPages (noProps\<lparr>total_prop := Some (- 15)\<rparr>)
               (mount (noProps\<lparr>total_prop := Some (- 15)\<rparr>)) \<noteq> Num 0"
  by (simp add: props_defs derived_defs calculatePage_None calculatePage_Some)

text \<open>
  C2, amended. For every configuration with \<open>total < 0\<close>, no handler changes the current
  page: \<open>handleChange\<close> rejects every page, since \<open>isValid\<close> asks for \<open>total > 0\<close>, so
  prev, next, jump-prev and jump-next have no effect. If moreover \<open>pageSize \<ge> 1\<close>, the
  page count is at most \<open>0\<close>, and \<open>0\<close> exactly when \<open>total > - pageSize\<close>; the list
  holds no numbered page, only the disabled placeholder when the count is \<open>0\<close>; and
  \<open>hasPrev\<close> is false. Nothing is said of \<open>pageSize \<le> 0\<close> with \<open>total \<ge> 0\<close>, where
  the count can be infinite and next enabled (\<open>zero_pageSize_next_enabled\<close>).
\<close>

theorem negative_total:
  assumes T: "total' P < 0"
  shows "(1 \<le> pageSize P S \<longrightarrow>
           (\<exists>n. allPages P S = Num n \<and> n \<le> 0 \<and> (n = 0 \<longleftrightarrow> - pageSize P S < total' P)
               \<and> pagerList P S
                   = Some (Inr (if n = 0
                                then [Pager (Num 1) False [prefixCls P @ ''-item-disabled'']]
                                else [])))
           \<and> \<not> hasPrev P S)
       \<and> prevHandle P S = [] \<and> nextHandle P S = []
       \<and> jumpPrevHandle P S = [] \<and> jumpNextHandle P S = []
       \<and> snd (handleChange P S page') = []"
proof -
  have hc: "handleChange P S q = (current P S, [])" for q
    using T by (simp add: handleChange_total_nonpositive)
  have handlers: "prevHandle P S = [] \<and> nextHandle P S = []
       \<and> jumpPrevHandle P S = [] \<and> jumpNextHandle P S = []
       \<and> snd (handleChange P S page') = []"
    by (simp add: prevHandle_def nextHandle_def jumpPrevHandle_def jumpNextHandle_def hc)
  have count: "(\<exists>n. allPages P S = Num n \<and> n \<le> 0 \<and> (n = 0 \<longleftrightarrow> - pageSize P S < total' P)
               \<and> pagerList P S
                   = Some (Inr (if n = 0
                                then [Pager (Num 1) False [prefixCls P @ ''-item-disabled'']]
                                else [])))
           \<and> \<not> hasPrev P S" if ps: "1 \<le> pageSize P S"
  proof -
    define n where "n = (total' P - 1) div pageSize P S + 1"
    have A: "allPages P S = Num n"
      using ps by (simp add: allPages_def calculatePage_None n_def)
    have n0: "n \<le> 0" unfolding n_def using ps T by (simp add: pages_nonpos)
    have nz: "n = 0 \<longleftrightarrow> - pageSize P S < total' P"
      unfolding n_def using pages_eq_zero [OF ps, of "total' P"] T by simp
    have small: "n \<le> 3 + (if showLessItems P then 1 else 2) * 2" using n0 by simp
    have "[1..n] = []" using n0 by simp
    with pagerList_small [OF A small]
    have pl: "pagerList P S
                   = Some (Inr (if n = 0
                                then [Pager (Num 1) False [prefixCls P @ ''-item-disabled'']]
                                else []))" by simp
    have "\<not> hasPrev P S" using A n0 by (simp add: hasPrev_def current_eq)
    with A n0 nz pl show ?thesis by blast
  qed
  from handlers count show ?thesis by blast
qed

theorem negative_total_witness:
  "total' (noProps\<lparr>total_prop := Some (- 15)\<rparr>) < 0
   \<and> 1 \<le> pageSize (noProps\<lparr>total_prop := Some (- 15)\<rparr>)
               (mount (noProps\<lparr>total_prop := Some (- 15)\<rparr>))
   \<and> allPages (noProps\<lparr>total_prop := Some (- 15)\<rparr>)
               (mount (noProps\<lparr>total_prop := Some (- 15)\<rparr>)) = Num (- 1)
   \<and> pagerList (noProps\<lparr>total_prop := Some (- 15)\<rparr>)
               (mount (noProps\<lparr>total_prop := Some (- 15)\<rparr>)) = Some (Inr [])
   \<and> nextHandle (noProps\<lparr>total_prop := Some (- 15)\<rparr>)
               (mount (noProps\<lparr>total_prop := Some (- 15)\<rparr>)) = []
   \<and> jumpNextHandle (noProps\<lparr>total_prop := Some (- 15)\<rparr>)
               (mount (noProps\<lparr>total_prop := Some (- 15)\<rparr>)) = []"
proof -
  let ?P = "noProps\<lparr>total_prop := Some (- 15)\<rparr>"
  have T: "total' ?P < 0" and PS: "1 \<le> pageSize ?P (mount ?P)"
    and A: "allPages ?P (mount ?P) = Num (- 1)"
    by (simp_all add: props_defs derived_defs calculatePage_None calculatePage_Some)
  from negative_total [OF T, of "mount ?P"] T PS A show ?thesis
    by auto
qed


end
